theory Spec2Isabelle
  imports Main
begin

section \<open>The alt text generator: the request to the inference endpoint and its retry loop\<close>

text \<open>
  The development embeds \<^verbatim>\<open>generateAltText\<close> of \<^verbatim>\<open>src/App.jsx\<close>: the
  construction of the request, the retry loop with its exponential backoff, the reading of
  the generated text out of the response body, and the updates of the component's state.
  The array \<^verbatim>\<open>chatHistory\<close> is written once and never read, and is left out.
  The network and the timer are the only things outside the function. They are modelled by
  an endpoint, which gives the outcome of the i-th call of \<^verbatim>\<open>fetch\<close>, and by a trace
  of the calls and waits the function performs, in order.
\<close>

subsection \<open>JavaScript values read from JSON\<close>

text \<open>
  What \<^verbatim>\<open>JSON.parse\<close> can return. A number is kept as an integer: this code only
  tests a number for being zero. A string is its sequence of code units.
\<close>

datatype json =
    JNull
  | JBool bool
  | JNum int
  | JStr string
  | JArr "json list"
  | JObj "(string \<times> json) list"

text \<open>
  A value that may be \<^verbatim>\<open>undefined\<close> is a \<open>json option\<close>, with \<open>None\<close> for
  \<^verbatim>\<open>undefined\<close>.

  \<open>get_prop k v\<close> is \<^verbatim>\<open>v.k\<close> for a property name \<open>k\<close> that no prototype defines
  (the names read here are candidates, content, parts and text): an object gives the value
  of its key, where the last of two equal keys of the JSON text wins, and every other value
  gives \<^verbatim>\<open>undefined\<close>.
\<close>

fun get_prop :: "string \<Rightarrow> json \<Rightarrow> json option" where
  "get_prop k (JObj kvs) = map_of (rev kvs) k"
| "get_prop k v = None"

text \<open>
  \<open>at0 v\<close> is \<^verbatim>\<open>v[0]\<close>: the first element of an array, the first code unit of a
  string, the key \<^verbatim>\<open>"0"\<close> of an object.
\<close>

fun at0 :: "json \<Rightarrow> json option" where
  "at0 (JArr []) = None"
| "at0 (JArr (x # xs)) = Some x"
| "at0 (JStr []) = None"
| "at0 (JStr (c # cs)) = Some (JStr [c])"
| "at0 (JObj kvs) = map_of (rev kvs) ''0''"
| "at0 v = None"

text \<open>
  Optional chaining: \<^verbatim>\<open>v?.k\<close> is \<^verbatim>\<open>undefined\<close> when \<open>v\<close> is
  \<^verbatim>\<open>undefined\<close> or \<^verbatim>\<open>null\<close>, and the access otherwise.
\<close>

fun chain :: "(json \<Rightarrow> json option) \<Rightarrow> json option \<Rightarrow> json option" where
  "chain f None = None"
| "chain f (Some JNull) = None"
| "chain f (Some v) = f v"

text \<open>\<^verbatim>\<open>result?.candidates?.[0]?.content?.parts?.[0]?.text\<close>\<close>

definition generated_text :: "json \<Rightarrow> json option" where
  "generated_text result =
     chain (get_prop ''text'')
       (chain at0
         (chain (get_prop ''parts'')
           (chain (get_prop ''content'')
             (chain at0
               (chain (get_prop ''candidates'') (Some result))))))"

text \<open>The truth value JavaScript gives a value in \<^verbatim>\<open>if (generatedText)\<close>.\<close>

fun truthy :: "json option \<Rightarrow> bool" where
  "truthy None = False"
| "truthy (Some JNull) = False"
| "truthy (Some (JBool b)) = b"
| "truthy (Some (JNum n)) = (n \<noteq> 0)"
| "truthy (Some (JStr s)) = (s \<noteq> [])"
| "truthy (Some (JArr xs)) = True"
| "truthy (Some (JObj kvs)) = True"

subsection \<open>Requests, responses and errors\<close>

text \<open>
  The second argument of \<^verbatim>\<open>fetch\<close>, with the URL. The body is the object handed to
  \<^verbatim>\<open>JSON.stringify\<close>.
\<close>

record request =
  url :: string
  http_method :: string
  headers :: "(string \<times> string) list"
  body :: json

text \<open>
  What the function reads of a response: \<^verbatim>\<open>status\<close>, \<^verbatim>\<open>ok\<close>,
  \<^verbatim>\<open>statusText\<close>, and the result of \<^verbatim>\<open>response.json()\<close>, which is \<open>None\<close>
  when that promise rejects (the body is not JSON).
\<close>

record response =
  status :: nat
  ok :: bool
  statusText :: string
  json_body :: "json option"

text \<open>
  The errors that reach the outer \<^verbatim>\<open>catch\<close>: the rejection of \<^verbatim>\<open>fetch\<close> with its
  message, the \<^verbatim>\<open>API error\<close> thrown for a response that is not ok, with the status and
  its text, the error thrown after the loop when there is no response
  (\<^verbatim>\<open>Failed to fetch from API after multiple retries.\<close>), and the rejection of
  \<^verbatim>\<open>response.json()\<close>.
\<close>

datatype js_error =
    FetchRejected string
  | ApiError nat string
  | FailedAfterRetries
  | JsonRejected

text \<open>
  A call of \<^verbatim>\<open>fetch\<close> rejects with a transport error, of which the message is kept,
  or resolves with a response.
\<close>

datatype fetch_result = Rejected string | Resolved response

text \<open>
  The endpoint: the outcome of each call of \<^verbatim>\<open>fetch\<close>, counted from 0. All calls of one
  run send the same request, so a sequence of outcomes describes every deterministic
  endpoint.
\<close>

type_synonym endpoint = "nat \<Rightarrow> fetch_result"

datatype event = Fetch request | Wait nat | ConsoleError js_error

fun calls :: "event list \<Rightarrow> nat" where
  "calls [] = 0"
| "calls (Fetch q # es) = Suc (calls es)"
| "calls (e # es) = calls es"

fun waits :: "event list \<Rightarrow> nat list" where
  "waits [] = []"
| "waits (Wait d # es) = d # waits es"
| "waits (e # es) = waits es"

subsection \<open>The request\<close>

definition prompt :: string where
  "prompt = ''Describe this image in a concise and detailed manner for alt text purposes. Focus on key visual elements, colors, and the subject matter. Start directly with the description without any introductory phrases like '' @ [CHR 0x27] @ ''The image shows...'' @ [CHR 0x27]"

definition payload :: "string \<Rightarrow> string \<Rightarrow> json" where
  "payload base64Data mimeType =
     JObj [(''contents'',
       JArr [JObj [(''role'', JStr ''user''),
                   (''parts'',
                     JArr [JObj [(''text'', JStr prompt)],
                           JObj [(''inlineData'',
                             JObj [(''mimeType'', JStr mimeType),
                                   (''data'', JStr base64Data)])]])]])]"

definition apiKey :: string where
  "apiKey = []"

definition apiUrl :: string where
  "apiUrl = ''https://generativelanguage.googleapis.com/v1beta/models/gemini-2.5-flash-preview-05-20:generateContent?key='' @ apiKey"

definition api_request :: "string \<Rightarrow> string \<Rightarrow> request" where
  "api_request base64Data mimeType =
     \<lparr>url = apiUrl, http_method = ''POST'',
      headers = [(''Content-Type'', ''application/json'')],
      body = payload base64Data mimeType\<rparr>"

subsection \<open>The retry loop\<close>

text \<open>
  The three variables of the loop, and the trace of what the run has done so far. The number
  of the next call of \<^verbatim>\<open>fetch\<close> is the number of calls in the trace. The delay is in
  milliseconds; it never exceeds 32000, so JavaScript's numbers hold it exactly.
\<close>

record loop_state =
  response :: "response option"
  delay :: nat
  retries :: nat
  trace :: "event list"

definition maxRetries :: nat where
  "maxRetries = 5"

definition initial_state :: loop_state where
  "initial_state = \<lparr>response = None, delay = 1000, retries = 0, trace = []\<rparr>"

text \<open>How one pass through the body of the loop ends.\<close>

datatype control = Continue loop_state | Break loop_state | Throw js_error loop_state

text \<open>The inner \<^verbatim>\<open>catch\<close> block.\<close>

definition catch_block :: "js_error \<Rightarrow> loop_state \<Rightarrow> control" where
  "catch_block error s =
     (let s1 = s\<lparr>retries := Suc (retries s)\<rparr> in
      if maxRetries \<le> retries s1 then Throw error s1
      else Continue (s1\<lparr>trace := trace s1 @ [Wait (delay s1)], delay := delay s1 * 2\<rparr>))"

text \<open>The body of the \<^verbatim>\<open>while\<close> loop: the inner \<^verbatim>\<open>try\<close> with its \<^verbatim>\<open>catch\<close>.\<close>

definition loop_body :: "endpoint \<Rightarrow> request \<Rightarrow> loop_state \<Rightarrow> control" where
  "loop_body ep req s =
     (let s0 = s\<lparr>trace := trace s @ [Fetch req]\<rparr> in
      case ep (calls (trace s)) of
        Rejected msg \<Rightarrow> catch_block (FetchRejected msg) s0
      | Resolved r \<Rightarrow>
          (let s1 = s0\<lparr>response := Some r\<rparr> in
           if status r = 429 then
             Continue (s1\<lparr>trace := trace s1 @ [Wait (delay s1)],
                          delay := delay s1 * 2,
                          retries := Suc (retries s1)\<rparr>)
           else if \<not> ok r then catch_block (ApiError (status r) (statusText r)) s1
           else Break s1))"

datatype loop_exit = Exited loop_state | Threw js_error loop_state

function retry_loop :: "endpoint \<Rightarrow> request \<Rightarrow> loop_state \<Rightarrow> loop_exit" where
  "retry_loop ep req s =
     (if retries s < maxRetries then
        (case loop_body ep req s of
           Continue s' \<Rightarrow> retry_loop ep req s'
         | Break s' \<Rightarrow> Exited s'
         | Throw error s' \<Rightarrow> Threw error s')
      else Exited s)"
  by pat_completeness auto
termination
  by (relation "measure (\<lambda>(ep, req, s). maxRetries - retries s)")
     (auto simp: loop_body_def catch_block_def Let_def split: fetch_result.splits if_splits)

declare retry_loop.simps [simp del]

text \<open>
  The states in which the condition of the \<^verbatim>\<open>while\<close> is evaluated during a run: the
  initial one, and each state in which a pass through the body ends when the loop goes on.
\<close>

inductive loop_head :: "endpoint \<Rightarrow> request \<Rightarrow> loop_state \<Rightarrow> bool"
  for ep :: endpoint and req :: request where
  start: "loop_head ep req initial_state"
| again: "loop_head ep req s \<Longrightarrow> retries s < maxRetries \<Longrightarrow>
          loop_body ep req s = Continue s' \<Longrightarrow> loop_head ep req s'"

code_pred loop_head .

fun state_of :: "control \<Rightarrow> loop_state" where
  "state_of (Continue s) = s"
| "state_of (Break s) = s"
| "state_of (Throw error s) = s"

fun exit_state :: "loop_exit \<Rightarrow> loop_state" where
  "exit_state (Exited s) = s"
| "exit_state (Threw error s) = s"

subsection \<open>After the loop\<close>

text \<open>
  What one run produces: the text handed to \<^verbatim>\<open>setAltText\<close>, the message that no
  alt text could be generated, or the error caught by the outer \<^verbatim>\<open>catch\<close>.
\<close>

datatype outcome = Described json | NoDescriptionProduced | Failed js_error

text \<open>The statements between the loop and the outer \<^verbatim>\<open>catch\<close>.\<close>

definition after_loop :: "loop_state \<Rightarrow> outcome" where
  "after_loop s =
     (case response s of
        None \<Rightarrow> Failed FailedAfterRetries
      | Some r \<Rightarrow>
          (case json_body r of
             None \<Rightarrow> Failed JsonRejected
           | Some result \<Rightarrow>
               (case generated_text result of
                  None \<Rightarrow> NoDescriptionProduced
                | Some generatedText \<Rightarrow>
                    if truthy (Some generatedText) then Described generatedText
                    else NoDescriptionProduced)))"

text \<open>
  The body of the outer \<^verbatim>\<open>try\<close>: the outcome of the run with the calls and waits it
  made. This is the operation the specification calls \<^verbatim>\<open>infer\<close>.
\<close>

definition infer :: "endpoint \<Rightarrow> string \<Rightarrow> string \<Rightarrow> outcome \<times> event list" where
  "infer ep base64Data mimeType =
     (case retry_loop ep (api_request base64Data mimeType) initial_state of
        Exited s \<Rightarrow> (after_loop s, trace s)
      | Threw error s \<Rightarrow> (Failed error, trace s))"

subsection \<open>The component's state\<close>

record ui_state =
  altText :: json
  isLoading :: bool
  message :: string

text \<open>The state of a component that has just been mounted, or reset.\<close>

definition initial_ui :: ui_state where
  "initial_ui = \<lparr>altText = JStr [], isLoading = False, message = []\<rparr>"

text \<open>
  \<^verbatim>\<open>generateAltText\<close>: the state it leaves and the trace of the run, which ends with
  the error written to the console when there is one.
\<close>

definition generateAltText ::
  "endpoint \<Rightarrow> string \<Rightarrow> string \<Rightarrow> ui_state \<Rightarrow> ui_state \<times> event list" where
  "generateAltText ep base64Data mimeType ui =
     (let ui1 = ui\<lparr>isLoading := True, message := ''Analyzing image...''\<rparr>;
          (out, tr) = infer ep base64Data mimeType
      in case out of
           Described generatedText \<Rightarrow>
             (ui1\<lparr>altText := generatedText,
                  message := ''Alt text generated successfully!'',
                  isLoading := False\<rparr>, tr)
         | NoDescriptionProduced \<Rightarrow>
             (ui1\<lparr>message := ''Could not generate alt text. Please try a different image.'',
                  isLoading := False\<rparr>, tr)
         | Failed error \<Rightarrow>
             (ui1\<lparr>message := ''An error occurred. Please check the console for details.'',
                  isLoading := False\<rparr>, tr @ [ConsoleError error]))"

subsection \<open>Two kinds of failure, and the invariant of the loop\<close>

text \<open>
  The outcomes of a call that end in the inner \<^verbatim>\<open>catch\<close>: a rejected
  \<^verbatim>\<open>fetch\<close>, and a response that is neither a 429 nor ok.
\<close>

fun hard_failure :: "fetch_result \<Rightarrow> bool" where
  "hard_failure (Rejected msg) = True"
| "hard_failure (Resolved r) = (status r \<noteq> 429 \<and> \<not> ok r)"

definition same_class :: "fetch_result \<Rightarrow> fetch_result \<Rightarrow> bool" where
  "same_class a b \<longleftrightarrow> a = b \<or> (hard_failure a \<and> hard_failure b)"

fun is_Failed :: "outcome \<Rightarrow> bool" where
  "is_Failed (Failed error) = True"
| "is_Failed out = False"

text \<open>
  Two states of the loop, or two ways of leaving it, that agree on the counter, the delay
  and the calls and waits made so far.
\<close>

definition same_progress :: "loop_state \<Rightarrow> loop_state \<Rightarrow> bool" where
  "same_progress s1 s2 \<longleftrightarrow>
     delay s1 = delay s2 \<and> retries s1 = retries s2 \<and> trace s1 = trace s2"

fun same_exit :: "loop_exit \<Rightarrow> loop_exit \<Rightarrow> bool" where
  "same_exit (Exited s1) (Exited s2) = (s1 = s2)"
| "same_exit (Threw e1 s1) (Threw e2 s2) = same_progress s1 s2"
| "same_exit x1 x2 = False"

text \<open>What holds each time the condition of the loop is evaluated.\<close>

definition head_inv :: "loop_state \<Rightarrow> bool" where
  "head_inv s \<longleftrightarrow>
     retries s \<le> maxRetries \<and> delay s = 1000 * 2 ^ retries s \<and>
     calls (trace s) = retries s \<and>
     waits (trace s) = map (\<lambda>i. 1000 * 2 ^ i) [0..<retries s] \<and>
     (retries s < maxRetries \<or> response s \<noteq> None)"

text \<open>What holds when the loop is left, by its condition, a break or a throw.\<close>

definition exit_post :: "loop_state \<Rightarrow> bool" where
  "exit_post s \<longleftrightarrow>
     retries s \<le> maxRetries \<and> calls (trace s) \<le> maxRetries \<and>
     (\<exists>n\<le>maxRetries. waits (trace s) = map (\<lambda>i. 1000 * 2 ^ i) [0..<n])"

subsection \<open>Example responses and endpoints\<close>

definition too_many_requests :: response where
  "too_many_requests =
     \<lparr>status = 429, ok = False, statusText = ''Too Many Requests'',
      json_body = Some (JObj [(''error'',
        JObj [(''code'', JNum 429), (''status'', JStr ''RESOURCE_EXHAUSTED'')])])\<rparr>"

definition described :: response where
  "described =
     \<lparr>status = 200, ok = True, statusText = ''OK'',
      json_body = Some (JObj [(''candidates'',
        JArr [JObj [(''content'',
          JObj [(''parts'', JArr [JObj [(''text'', JStr ''A brown bear'')]])])]])])\<rparr>"

definition no_candidates :: response where
  "no_candidates =
     \<lparr>status = 200, ok = True, statusText = ''OK'',
      json_body = Some (JObj [(''candidates'', JArr [])])\<rparr>"

definition server_error :: response where
  "server_error =
     \<lparr>status = 500, ok = False, statusText = ''Internal Server Error'', json_body = None\<rparr>"

definition five_429 :: endpoint where
  "five_429 i = (if i < 5 then Resolved too_many_requests else Resolved described)"

definition two_429_then_ok :: endpoint where
  "two_429_then_ok i = (if i < 2 then Resolved too_many_requests else Resolved described)"

definition reset_then_ok :: endpoint where
  "reset_then_ok i = (if i = 0 then Rejected ''Failed to fetch'' else Resolved described)"

definition error_then_ok :: endpoint where
  "error_then_ok i = (if i = 0 then Resolved server_error else Resolved described)"

definition failing :: endpoint where
  "failing i = (if even i then Rejected ''Failed to fetch'' else Resolved server_error)"

definition always_empty :: endpoint where
  "always_empty i = Resolved no_candidates"

section \<open>Properties of the retry loop\<close>

subsection \<open>Traces\<close>

lemma calls_append [simp]: "calls (xs @ ys) = calls xs + calls ys"
  by (induction xs rule: calls.induct) auto

lemma waits_append [simp]: "waits (xs @ ys) = waits xs @ waits ys"
  by (induction xs rule: waits.induct) auto

lemma backoff_Suc:
  "concat (map (\<lambda>i. [Fetch req, Wait (d * 2 ^ i)]) [0..<Suc k]) =
     Fetch req # Wait d # concat (map (\<lambda>i. [Fetch req, Wait (d * 2 * 2 ^ i)]) [0..<k])"
  by (simp add: map_upt_Suc mult.assoc del: upt_Suc)

lemma calls_backoff:
  "calls (concat (map (\<lambda>i. [Fetch req, Wait (f i)]) [0..<k])) = k"
  by (induction k) simp_all

lemma waits_backoff:
  "waits (concat (map (\<lambda>i. [Fetch req, Wait (f i)]) [0..<k])) = map f [0..<k]"
  by (induction k) simp_all

subsection \<open>One pass through the body\<close>

lemma loop_body_429:
  assumes "ep (calls (trace s)) = Resolved r" and "status r = 429"
  shows "loop_body ep req s =
           Continue (s\<lparr>response := Some r, delay := delay s * 2, retries := Suc (retries s),
                        trace := trace s @ [Fetch req, Wait (delay s)]\<rparr>)"
  using assms by (simp add: loop_body_def Let_def)

lemma loop_body_ok:
  assumes "ep (calls (trace s)) = Resolved r" and "status r \<noteq> 429" and "ok r"
  shows "loop_body ep req s = Break (s\<lparr>response := Some r, trace := trace s @ [Fetch req]\<rparr>)"
  using assms by (simp add: loop_body_def Let_def)

lemma loop_body_Break:
  assumes "loop_body ep req s = Break s'"
  shows "retries s' = retries s \<and> delay s' = delay s \<and> response s' \<noteq> None \<and>
         calls (trace s') = Suc (calls (trace s)) \<and> waits (trace s') = waits (trace s)"
  using assms
  by (auto simp: loop_body_def catch_block_def Let_def split: fetch_result.splits if_splits)

lemma loop_body_Throw:
  assumes "loop_body ep req s = Throw e s'"
  shows "retries s' = Suc (retries s) \<and> maxRetries \<le> Suc (retries s) \<and> delay s' = delay s \<and>
         calls (trace s') = Suc (calls (trace s)) \<and> waits (trace s') = waits (trace s) \<and>
         e \<noteq> FailedAfterRetries"
  using assms
  by (auto simp: loop_body_def catch_block_def Let_def split: fetch_result.splits if_splits)

lemma loop_body_Continue:
  assumes "loop_body ep req s = Continue s'"
  shows "retries s' = Suc (retries s) \<and> delay s' = 2 * delay s \<and>
         calls (trace s') = Suc (calls (trace s)) \<and>
         waits (trace s') = waits (trace s) @ [delay s] \<and>
         (Suc (retries s) < maxRetries \<or> response s' \<noteq> None)"
  using assms
  by (auto simp: loop_body_def catch_block_def Let_def split: fetch_result.splits if_splits)

subsection \<open>The invariant\<close>

lemma head_inv_initial: "head_inv initial_state"
  by (simp add: head_inv_def initial_state_def maxRetries_def)

lemma head_inv_Continue:
  assumes "head_inv s" and "retries s < maxRetries" and "loop_body ep req s = Continue s'"
  shows "head_inv s'"
  using assms(1,2) loop_body_Continue [OF assms(3)]
  by (auto simp: head_inv_def)

lemma exit_post_head: "head_inv s \<Longrightarrow> exit_post s"
  by (auto simp: head_inv_def exit_post_def)

lemma exit_post_Break:
  assumes "head_inv s" and "retries s < maxRetries" and "loop_body ep req s = Break s'"
  shows "exit_post s' \<and> response s' \<noteq> None"
proof -
  from assms(1,2) loop_body_Break [OF assms(3)]
  have "retries s' \<le> maxRetries" and "calls (trace s') \<le> maxRetries"
    and "waits (trace s') = map (\<lambda>i. 1000 * 2 ^ i) [0..<retries s]"
    and "retries s \<le> maxRetries" and "response s' \<noteq> None"
    by (simp_all add: head_inv_def)
  then show ?thesis unfolding exit_post_def by blast
qed

lemma exit_post_Throw:
  assumes "head_inv s" and "retries s < maxRetries" and "loop_body ep req s = Throw e s'"
  shows "exit_post s' \<and> e \<noteq> FailedAfterRetries"
proof -
  from assms(1,2) loop_body_Throw [OF assms(3)]
  have "retries s' \<le> maxRetries" and "calls (trace s') \<le> maxRetries"
    and "waits (trace s') = map (\<lambda>i. 1000 * 2 ^ i) [0..<retries s]"
    and "retries s \<le> maxRetries" and "e \<noteq> FailedAfterRetries"
    by (simp_all add: head_inv_def)
  then show ?thesis unfolding exit_post_def by blast
qed

lemma retry_loop_post:
  "head_inv s \<Longrightarrow>
     (case retry_loop ep req s of
        Exited s' \<Rightarrow> exit_post s' \<and> response s' \<noteq> None
      | Threw e s' \<Rightarrow> exit_post s' \<and> e \<noteq> FailedAfterRetries)"
proof (induction ep req s rule: retry_loop.induct)
  case (1 ep req s)
  show ?case
  proof (cases "retries s < maxRetries")
    case False
    with "1.prems" show ?thesis
      by (simp add: retry_loop.simps [of ep req s] exit_post_head) (simp add: head_inv_def)
  next
    case True
    show ?thesis
    proof (cases "loop_body ep req s")
      case (Continue s')
      with True "1.prems" have "head_inv s'" by (simp add: head_inv_Continue)
      with "1.IH" [OF True Continue] Continue True show ?thesis
        by (simp add: retry_loop.simps [of ep req s])
    next
      case (Break s')
      with True "1.prems" exit_post_Break show ?thesis
        by (simp add: retry_loop.simps [of ep req s])
    next
      case (Throw e s')
      with True "1.prems" exit_post_Throw show ?thesis
        by (simp add: retry_loop.simps [of ep req s])
    qed
  qed
qed

lemma loop_head_inv: "loop_head ep req s \<Longrightarrow> head_inv s"
  by (induction rule: loop_head.induct) (auto intro: head_inv_initial head_inv_Continue)

subsection \<open>Rate limiting followed by a success\<close>

lemma retry_loop_429s:
  assumes "\<forall>i<k. \<exists>r. ep (calls (trace s) + i) = Resolved r \<and> status r = 429"
    and "retries s + k < maxRetries"
    and "ep (calls (trace s) + k) = Resolved r" and "status r \<noteq> 429" and "ok r"
  shows "retry_loop ep req s =
           Exited (s\<lparr>response := Some r, delay := delay s * 2 ^ k, retries := retries s + k,
                      trace := trace s @ concat (map (\<lambda>i. [Fetch req, Wait (delay s * 2 ^ i)]) [0..<k])
                                 @ [Fetch req]\<rparr>)"
  using assms
proof (induction k arbitrary: s)
  case 0
  then show ?case
    by (simp add: retry_loop.simps [of ep req s] loop_body_ok)
next
  case (Suc k)
  from Suc.prems(1) obtain r0 where r0: "ep (calls (trace s)) = Resolved r0" "status r0 = 429"
    by force
  let ?s1 = "s\<lparr>response := Some r0, delay := delay s * 2, retries := Suc (retries s),
                 trace := trace s @ [Fetch req, Wait (delay s)]\<rparr>"
  have step: "retry_loop ep req s = retry_loop ep req ?s1"
    using Suc.prems(2) r0 by (simp add: retry_loop.simps [of ep req s] loop_body_429)
  have "\<forall>i<k. \<exists>r. ep (calls (trace ?s1) + i) = Resolved r \<and> status r = 429"
    using Suc.prems(1) by (auto dest: spec [of _ "Suc i" for i])
  moreover have "retries ?s1 + k < maxRetries" using Suc.prems(2) by simp
  moreover have "ep (calls (trace ?s1) + k) = Resolved r" using Suc.prems(3) by simp
  ultimately have "retry_loop ep req ?s1 =
      Exited (?s1\<lparr>response := Some r, delay := delay ?s1 * 2 ^ k, retries := retries ?s1 + k,
                 trace := trace ?s1 @ concat (map (\<lambda>i. [Fetch req, Wait (delay ?s1 * 2 ^ i)]) [0..<k])
                            @ [Fetch req]\<rparr>)"
    using Suc.prems(4,5) by (rule Suc.IH)
  with step show ?case
    by (simp add: backoff_Suc mult.assoc del: upt_Suc)
qed

lemma after_loop_described:
  assumes "response s = Some r" and "json_body r = Some result"
    and "generated_text result = Some description" and "truthy (Some description)"
  shows "after_loop s = Described description"
  using assms by (simp add: after_loop_def)

text \<open>
  Claim C2. When the first \<open>k\<close> calls, for \<open>k < 5\<close>, are answered with status 429 and
  the next call with a response that is ok and holds a description, the run returns that
  description, has made exactly \<open>k + 1\<close> calls, and has waited \<open>1000 * 2 ^ i\<close>
  milliseconds between call \<open>i + 1\<close> and call \<open>i + 2\<close>, for each \<open>i < k\<close>.
\<close>

theorem rate_limited_then_described:
  assumes "k < 5"
    and "\<forall>i<k. \<exists>r. ep i = Resolved r \<and> status r = 429"
    and "ep k = Resolved r" and "status r \<noteq> 429" and "ok r"
    and "json_body r = Some result"
    and "generated_text result = Some description" and "truthy (Some description)"
  shows "infer ep base64Data mimeType =
           (Described description,
            concat (map (\<lambda>i. [Fetch (api_request base64Data mimeType), Wait (1000 * 2 ^ i)]) [0..<k])
              @ [Fetch (api_request base64Data mimeType)])
         \<and> calls (snd (infer ep base64Data mimeType)) = k + 1
         \<and> waits (snd (infer ep base64Data mimeType)) = map (\<lambda>i. 1000 * 2 ^ i) [0..<k]"
proof -
  let ?req = "api_request base64Data mimeType"
  have "retry_loop ep ?req initial_state =
          Exited (initial_state\<lparr>response := Some r, delay := delay initial_state * 2 ^ k,
                    retries := retries initial_state + k,
                    trace := trace initial_state
                      @ concat (map (\<lambda>i. [Fetch ?req, Wait (delay initial_state * 2 ^ i)]) [0..<k])
                      @ [Fetch ?req]\<rparr>)"
    using assms(1-5) by (intro retry_loop_429s) (simp_all add: initial_state_def maxRetries_def)
  then have "infer ep base64Data mimeType =
           (Described description,
            concat (map (\<lambda>i. [Fetch ?req, Wait (1000 * 2 ^ i)]) [0..<k]) @ [Fetch ?req])"
    using assms(6-8)
    by (simp add: infer_def initial_state_def after_loop_described [of _ r result description])
  then show ?thesis
    by (simp add: calls_backoff waits_backoff)
qed

theorem rate_limited_then_described_witness:
  "two_429_then_ok 0 = Resolved too_many_requests
   \<and> two_429_then_ok 1 = Resolved too_many_requests
   \<and> status too_many_requests = 429
   \<and> two_429_then_ok 2 = Resolved described
   \<and> status described = 200 \<and> ok described
   \<and> infer two_429_then_ok ''iVBORw0KGgo='' ''image/png'' =
       (Described (JStr ''A brown bear''),
        [Fetch (api_request ''iVBORw0KGgo='' ''image/png''), Wait 1000,
         Fetch (api_request ''iVBORw0KGgo='' ''image/png''), Wait 2000,
         Fetch (api_request ''iVBORw0KGgo='' ''image/png'')])
   \<and> calls (snd (infer two_429_then_ok ''iVBORw0KGgo='' ''image/png'')) = 3"
proof -
  have k: "(2::nat) < 5" by simp
  have limited: "\<forall>i<2. \<exists>r. two_429_then_ok i = Resolved r \<and> status r = 429"
    by (simp add: two_429_then_ok_def too_many_requests_def)
  have success: "two_429_then_ok 2 = Resolved described" "status described \<noteq> 429" "ok described"
    by (simp_all add: two_429_then_ok_def described_def)
  have body: "json_body described = Some (JObj [(''candidates'',
        JArr [JObj [(''content'',
          JObj [(''parts'', JArr [JObj [(''text'', JStr ''A brown bear'')]])])]])])"
    by (simp add: described_def)
  have path: "generated_text (JObj [(''candidates'',
        JArr [JObj [(''content'',
          JObj [(''parts'', JArr [JObj [(''text'', JStr ''A brown bear'')]])])]])])
        = Some (JStr ''A brown bear'')"
    by (simp add: generated_text_def)
  have nonempty: "truthy (Some (JStr ''A brown bear''))" by simp
  have given: "two_429_then_ok 0 = Resolved too_many_requests"
    "two_429_then_ok 1 = Resolved too_many_requests"
    "status too_many_requests = 429" "status described = 200"
    by (simp_all add: two_429_then_ok_def too_many_requests_def described_def)
  from rate_limited_then_described [OF k limited success body path nonempty,
      of "''iVBORw0KGgo=''" "''image/png''"] given success
  show ?thesis
    by (simp add: upt_rec)
qed

subsection \<open>A response without a description\<close>

lemma initial_state_simps [simp]:
  "response initial_state = None" "delay initial_state = 1000"
  "retries initial_state = 0" "trace initial_state = []"
  by (simp_all add: initial_state_def)

lemma after_loop_no_description:
  assumes "response s = Some r" and "json_body r = Some result"
    and "\<not> truthy (generated_text result)"
  shows "after_loop s = NoDescriptionProduced"
  using assms by (cases "generated_text result") (simp_all add: after_loop_def)

text \<open>
  Claim C5. When the first response is ok and not a 429, and its body has nothing at the
  path of the generated text (the path is absent, or leads to \<^verbatim>\<open>null\<close>) or has the empty
  string there, the run ends with the outcome that no description was produced, after
  exactly one call and without any wait.
\<close>

theorem empty_description_no_retry:
  assumes "ep 0 = Resolved r" and "status r \<noteq> 429" and "ok r"
    and "json_body r = Some result"
    and "generated_text result = None \<or> generated_text result = Some JNull
           \<or> generated_text result = Some (JStr [])"
  shows "infer ep base64Data mimeType =
           (NoDescriptionProduced, [Fetch (api_request base64Data mimeType)])
         \<and> calls (snd (infer ep base64Data mimeType)) = 1
         \<and> waits (snd (infer ep base64Data mimeType)) = []"
proof -
  let ?req = "api_request base64Data mimeType"
  have "\<not> truthy (generated_text result)"
    using assms(5) by auto
  moreover have "retry_loop ep ?req initial_state =
      Exited (initial_state\<lparr>response := Some r, trace := trace initial_state @ [Fetch ?req]\<rparr>)"
    using assms(1-3)
    by (simp add: retry_loop.simps [of ep ?req initial_state] loop_body_ok [of _ _ r]
        maxRetries_def)
  ultimately have "infer ep base64Data mimeType = (NoDescriptionProduced, [Fetch ?req])"
    using assms(4)
    by (simp add: infer_def after_loop_no_description [of _ r result])
  then show ?thesis by simp
qed

theorem empty_description_no_retry_witness:
  "always_empty 0 = Resolved no_candidates
   \<and> status no_candidates = 200 \<and> ok no_candidates
   \<and> json_body no_candidates = Some (JObj [(''candidates'', JArr [])])
   \<and> generated_text (JObj [(''candidates'', JArr [])]) = None
   \<and> infer always_empty ''iVBORw0KGgo='' ''image/png'' =
       (NoDescriptionProduced, [Fetch (api_request ''iVBORw0KGgo='' ''image/png'')])"
proof -
  have first: "always_empty 0 = Resolved no_candidates"
    by (simp add: always_empty_def)
  have success: "status no_candidates \<noteq> 429" "ok no_candidates" "status no_candidates = 200"
    by (simp_all add: no_candidates_def)
  have body: "json_body no_candidates = Some (JObj [(''candidates'', JArr [])])"
    by (simp add: no_candidates_def)
  have absent: "generated_text (JObj [(''candidates'', JArr [])]) = None"
    by (simp add: generated_text_def)
  then have path: "generated_text (JObj [(''candidates'', JArr [])]) = None
      \<or> generated_text (JObj [(''candidates'', JArr [])]) = Some JNull
      \<or> generated_text (JObj [(''candidates'', JArr [])]) = Some (JStr [])"
    by simp
  from empty_description_no_retry [where ep = always_empty and r = no_candidates,
      OF first success(1,2) body path, of "''iVBORw0KGgo=''" "''image/png''"]
    first success body absent
  show ?thesis by simp
qed

subsection \<open>A transport error followed by a success\<close>

lemma loop_body_rejected:
  assumes "ep (calls (trace s)) = Rejected msg" and "Suc (retries s) < maxRetries"
  shows "loop_body ep req s =
           Continue (s\<lparr>retries := Suc (retries s), delay := delay s * 2,
                        trace := trace s @ [Fetch req, Wait (delay s)]\<rparr>)"
  using assms by (simp add: loop_body_def catch_block_def Let_def)

text \<open>
  Claim C7. When the first call fails with a transport error and the second is answered
  with a response that is ok and holds a description, the run returns that description
  after exactly two calls, with one wait of 1000 milliseconds between them.
\<close>

theorem transport_error_then_described:
  assumes "ep 0 = Rejected msg"
    and "ep 1 = Resolved r" and "status r \<noteq> 429" and "ok r"
    and "json_body r = Some result"
    and "generated_text result = Some description" and "truthy (Some description)"
  shows "infer ep base64Data mimeType =
           (Described description,
            [Fetch (api_request base64Data mimeType), Wait 1000,
             Fetch (api_request base64Data mimeType)])
         \<and> calls (snd (infer ep base64Data mimeType)) = 2
         \<and> waits (snd (infer ep base64Data mimeType)) = [1000]"
proof -
  let ?req = "api_request base64Data mimeType"
  let ?s1 = "initial_state\<lparr>retries := Suc (retries initial_state),
                delay := delay initial_state * 2,
                trace := trace initial_state @ [Fetch ?req, Wait (delay initial_state)]\<rparr>"
  have "retry_loop ep ?req initial_state = retry_loop ep ?req ?s1"
    using assms(1)
    by (simp add: retry_loop.simps [of ep ?req initial_state] loop_body_rejected [of _ _ msg]
        maxRetries_def)
  also have "\<dots> = Exited (?s1\<lparr>response := Some r, trace := trace ?s1 @ [Fetch ?req]\<rparr>)"
    using assms(2-4)
    by (subst retry_loop.simps) (simp add: loop_body_ok [of _ _ r] maxRetries_def)
  finally have "infer ep base64Data mimeType =
      (Described description, [Fetch ?req, Wait 1000, Fetch ?req])"
    using assms(5-7)
    by (simp add: infer_def after_loop_described [of _ r result description])
  then show ?thesis by simp
qed

theorem transport_error_then_described_witness:
  "reset_then_ok 0 = Rejected ''Failed to fetch''
   \<and> reset_then_ok 1 = Resolved described
   \<and> status described = 200 \<and> ok described
   \<and> infer reset_then_ok ''iVBORw0KGgo='' ''image/png'' =
       (Described (JStr ''A brown bear''),
        [Fetch (api_request ''iVBORw0KGgo='' ''image/png''), Wait 1000,
         Fetch (api_request ''iVBORw0KGgo='' ''image/png'')])"
proof -
  have first: "reset_then_ok 0 = Rejected ''Failed to fetch''"
    by (simp add: reset_then_ok_def)
  have second: "reset_then_ok 1 = Resolved described"
    by (simp add: reset_then_ok_def)
  have success: "status described \<noteq> 429" "ok described" "status described = 200"
    by (simp_all add: described_def)
  have body: "json_body described = Some (JObj [(''candidates'',
        JArr [JObj [(''content'',
          JObj [(''parts'', JArr [JObj [(''text'', JStr ''A brown bear'')]])])]])])"
    by (simp add: described_def)
  have path: "generated_text (JObj [(''candidates'',
        JArr [JObj [(''content'',
          JObj [(''parts'', JArr [JObj [(''text'', JStr ''A brown bear'')]])])]])])
        = Some (JStr ''A brown bear'')"
    by (simp add: generated_text_def)
  have nonempty: "truthy (Some (JStr ''A brown bear''))" by simp
  from transport_error_then_described [where ep = reset_then_ok and r = described,
      OF first second success(1,2) body path nonempty, of "''iVBORw0KGgo=''" "''image/png''"]
    first second success
  show ?thesis by simp
qed

subsection \<open>Five responses with status 429\<close>

lemma five_429_loop:
  "retry_loop five_429 req initial_state =
     Exited \<lparr>response = Some too_many_requests, delay = 32000, retries = 5,
             trace = [Fetch req, Wait 1000, Fetch req, Wait 2000, Fetch req, Wait 4000,
                      Fetch req, Wait 8000, Fetch req, Wait 16000]\<rparr>"
  by (simp add: retry_loop.simps loop_body_def Let_def initial_state_def maxRetries_def
      five_429_def too_many_requests_def)

text \<open>
  Claim C1, at the endpoint that answers the first five calls with status 429 and a JSON
  error body (and would answer a sixth with a description). The run makes exactly five
  calls and no sixth. It does not end with the error of exhausted retries: the loop is left
  with the fifth 429 response in \<^verbatim>\<open>response\<close>, whose body is then read like that of a
  success, and the run ends with the message that no alt text could be generated.
\<close>

theorem five_429_reads_last_response:
  "infer five_429 ''iVBORw0KGgo='' ''image/png'' =
     (NoDescriptionProduced,
      [Fetch (api_request ''iVBORw0KGgo='' ''image/png''), Wait 1000,
       Fetch (api_request ''iVBORw0KGgo='' ''image/png''), Wait 2000,
       Fetch (api_request ''iVBORw0KGgo='' ''image/png''), Wait 4000,
       Fetch (api_request ''iVBORw0KGgo='' ''image/png''), Wait 8000,
       Fetch (api_request ''iVBORw0KGgo='' ''image/png''), Wait 16000])
   \<and> calls (snd (infer five_429 ''iVBORw0KGgo='' ''image/png'')) = 5
   \<and> fst (infer five_429 ''iVBORw0KGgo='' ''image/png'') \<noteq> Failed FailedAfterRetries
   \<and> message (fst (generateAltText five_429 ''iVBORw0KGgo='' ''image/png'' initial_ui)) =
       ''Could not generate alt text. Please try a different image.''"
proof -
  have "infer five_429 ''iVBORw0KGgo='' ''image/png'' =
     (NoDescriptionProduced,
      [Fetch (api_request ''iVBORw0KGgo='' ''image/png''), Wait 1000,
       Fetch (api_request ''iVBORw0KGgo='' ''image/png''), Wait 2000,
       Fetch (api_request ''iVBORw0KGgo='' ''image/png''), Wait 4000,
       Fetch (api_request ''iVBORw0KGgo='' ''image/png''), Wait 8000,
       Fetch (api_request ''iVBORw0KGgo='' ''image/png''), Wait 16000])"
    by (simp add: infer_def five_429_loop after_loop_def too_many_requests_def
        generated_text_def)
  then show ?thesis
    by (simp add: generateAltText_def)
qed

subsection \<open>The error after the loop\<close>

lemma infer_trace:
  "snd (infer ep base64Data mimeType) =
     trace (exit_state (retry_loop ep (api_request base64Data mimeType) initial_state))"
  by (simp add: infer_def split: loop_exit.split)

lemma after_loop_response:
  "response s \<noteq> None \<Longrightarrow> after_loop s \<noteq> Failed FailedAfterRetries"
  by (auto simp: after_loop_def split: option.splits)

lemma after_loop_guard:
  "after_loop s = Failed FailedAfterRetries \<longleftrightarrow> response s = None"
  by (auto simp: after_loop_def split: option.splits)

text \<open>
  Claim C6. The error thrown after the loop for a missing response is the outcome of no
  run: whenever the loop is left without a throw, \<^verbatim>\<open>response\<close> holds the response of
  the last call, also when the retries are exhausted by 429 responses. At the endpoint of
  five 429 responses the loop is left by its condition, with five retries, no successful
  call and no error thrown, and \<^verbatim>\<open>response\<close> is the fifth 429 response.
\<close>

theorem exhausted_retries_never_reported:
  "fst (infer ep base64Data mimeType) \<noteq> Failed FailedAfterRetries
   \<and> (\<exists>s. retry_loop five_429 (api_request base64Data mimeType) initial_state = Exited s
          \<and> retries s = maxRetries \<and> response s = Some too_many_requests)"
proof -
  let ?req = "api_request base64Data mimeType"
  have "fst (infer ep base64Data mimeType) \<noteq> Failed FailedAfterRetries"
    using retry_loop_post [OF head_inv_initial, of ep ?req]
    by (auto simp: infer_def after_loop_response split: loop_exit.splits)
  then show ?thesis
    by (simp add: five_429_loop maxRetries_def)
qed

subsection \<open>The waits of a run\<close>

lemma backoff_bounds:
  assumes "n \<le> 5"
  shows "(\<forall>w\<in>set (map (\<lambda>i. 1000 * 2 ^ i) [0..<n]). w \<le> (16000::nat))
         \<and> sum_list (map (\<lambda>i. 1000 * 2 ^ i) [0..<n]) \<le> (31000::nat)"
proof -
  from assms have "n = 0 \<or> n = 1 \<or> n = 2 \<or> n = 3 \<or> n = 4 \<or> n = 5" by arith
  then show ?thesis
    by (elim disjE) (simp_all add: upt_rec)
qed

text \<open>
  Claim C10. Every run waits at most five times, the wait number \<open>i\<close> (from 0) lasts
  \<open>1000 * 2 ^ i\<close> milliseconds, no wait is longer than 16000 milliseconds, and the waits
  of one run add up to at most 31000 milliseconds.
\<close>

theorem backoff_bounded:
  "length (waits (snd (infer ep base64Data mimeType))) \<le> 5
   \<and> waits (snd (infer ep base64Data mimeType)) =
       map (\<lambda>i. 1000 * 2 ^ i) [0..<length (waits (snd (infer ep base64Data mimeType)))]
   \<and> (\<forall>w\<in>set (waits (snd (infer ep base64Data mimeType))). w \<le> 16000)
   \<and> sum_list (waits (snd (infer ep base64Data mimeType))) \<le> 31000"
proof -
  let ?req = "api_request base64Data mimeType"
  have "exit_post (exit_state (retry_loop ep ?req initial_state))"
    using retry_loop_post [OF head_inv_initial, of ep ?req]
    by (cases "retry_loop ep ?req initial_state") simp_all
  then obtain n where n: "n \<le> 5"
    "waits (snd (infer ep base64Data mimeType)) = map (\<lambda>i. 1000 * 2 ^ i) [0..<n]"
    by (auto simp: exit_post_def infer_trace maxRetries_def)
  from backoff_bounds [OF n(1)] n show ?thesis
    by simp
qed

theorem backoff_bounded_witness:
  "waits (snd (infer five_429 ''iVBORw0KGgo='' ''image/png'')) =
     [1000, 2000, 4000, 8000, 16000]
   \<and> 16000 \<in> set (waits (snd (infer five_429 ''iVBORw0KGgo='' ''image/png'')))
   \<and> length (waits (snd (infer five_429 ''iVBORw0KGgo='' ''image/png''))) \<le> 5
   \<and> sum_list (waits (snd (infer five_429 ''iVBORw0KGgo='' ''image/png''))) \<le> 31000"
proof -
  have run: "waits (snd (infer five_429 ''iVBORw0KGgo='' ''image/png'')) =
     [1000, 2000, 4000, 8000, 16000]"
    by (simp add: infer_trace five_429_loop)
  then have longest: "16000 \<in> set (waits (snd (infer five_429 ''iVBORw0KGgo='' ''image/png'')))"
    by simp
  from backoff_bounded [of five_429 "''iVBORw0KGgo=''" "''image/png''"] run longest
  show ?thesis by blast
qed

subsection \<open>The counter and the delay during a run\<close>

lemma loop_body_retries:
  assumes "retries s < maxRetries"
  shows "retries (state_of (loop_body ep req s)) \<le> maxRetries"
  using assms
  by (auto simp: loop_body_def catch_block_def Let_def split: fetch_result.splits)

lemma loop_body_goes_on:
  assumes "hard_failure (ep (calls (trace s)))" and "Suc (retries s) < maxRetries"
  shows "\<exists>s'. loop_body ep req s = Continue s'"
  using assms
  by (cases "ep (calls (trace s))") (simp_all add: loop_body_def catch_block_def Let_def)

text \<open>
  A run of the loop from the initial state passes through these states only: it is left in
  one of them, by the condition, or from one of them, by a break or a throw of the body.
\<close>

lemma retry_loop_visits:
  assumes "loop_head ep req s"
  shows "case retry_loop ep req s of
           Exited s' \<Rightarrow>
             loop_head ep req s' \<and> maxRetries \<le> retries s'
             \<or> (\<exists>h. loop_head ep req h \<and> retries h < maxRetries \<and> loop_body ep req h = Break s')
         | Threw e s' \<Rightarrow>
             (\<exists>h. loop_head ep req h \<and> retries h < maxRetries \<and> loop_body ep req h = Throw e s')"
  using assms
proof (induction ep req s rule: retry_loop.induct)
  case (1 ep req s)
  show ?case
  proof (cases "retries s < maxRetries")
    case False
    with "1.prems" show ?thesis
      by (simp add: retry_loop.simps [of ep req s])
  next
    case True
    show ?thesis
    proof (cases "loop_body ep req s")
      case (Continue s')
      with True "1.prems" have "loop_head ep req s'" by (auto intro: loop_head.again)
      with "1.IH" [OF True Continue] Continue True show ?thesis
        by (simp add: retry_loop.simps [of ep req s])
    next
      case (Break s')
      with True "1.prems" show ?thesis
        by (auto simp: retry_loop.simps [of ep req s])
    next
      case (Throw e s')
      with True "1.prems" show ?thesis
        by (auto simp: retry_loop.simps [of ep req s])
    qed
  qed
qed

text \<open>
  Claim C3. Each time the condition of the loop is evaluated, \<^verbatim>\<open>retries\<close> is at most 5
  and \<^verbatim>\<open>delay\<close> is \<open>1000 * 2 ^ retries\<close>: it starts at 1000 and has doubled once for
  each failure so far. When the body runs from such a state, \<^verbatim>\<open>retries\<close> is still at
  most 5 in the state it ends in, however it ends; the loop goes on after every 429 and
  after every rejected call or response that is not ok while attempts remain; and whenever
  the loop goes on, \<^verbatim>\<open>retries\<close> has grown by one and \<^verbatim>\<open>delay\<close> has doubled.
\<close>

theorem retry_state_invariant:
  assumes "loop_head ep req s"
  shows "retries s \<le> 5 \<and> delay s = 1000 * 2 ^ retries s
         \<and> (retries s < 5 \<longrightarrow>
              retries (state_of (loop_body ep req s)) \<le> 5
              \<and> (\<forall>r. ep (calls (trace s)) = Resolved r \<and> status r = 429 \<longrightarrow>
                     (\<exists>s'. loop_body ep req s = Continue s'))
              \<and> (hard_failure (ep (calls (trace s))) \<and> Suc (retries s) < 5 \<longrightarrow>
                     (\<exists>s'. loop_body ep req s = Continue s'))
              \<and> (\<forall>s'. loop_body ep req s = Continue s' \<longrightarrow>
                     retries s' = Suc (retries s) \<and> delay s' = 2 * delay s))"
proof -
  from assms have "head_inv s" by (rule loop_head_inv)
  then have "retries s \<le> 5" and "delay s = 1000 * 2 ^ retries s"
    by (simp_all add: head_inv_def maxRetries_def)
  moreover have "retries (state_of (loop_body ep req s)) \<le> 5" if "retries s < 5"
    using that loop_body_retries [of s ep req] by (simp add: maxRetries_def)
  moreover have "\<exists>s'. loop_body ep req s = Continue s'"
    if "ep (calls (trace s)) = Resolved r" "status r = 429" for r
    using that by (simp add: loop_body_429)
  moreover have "\<exists>s'. loop_body ep req s = Continue s'"
    if "hard_failure (ep (calls (trace s)))" "Suc (retries s) < 5"
    using that loop_body_goes_on [of ep s req] by (simp add: maxRetries_def)
  moreover have "retries s' = Suc (retries s) \<and> delay s' = 2 * delay s"
    if "loop_body ep req s = Continue s'" for s'
    using loop_body_Continue [OF that] by simp
  ultimately show ?thesis by blast
qed

theorem retry_state_invariant_witness:
  "loop_head reset_then_ok (api_request ''iVBORw0KGgo='' ''image/png'') initial_state
   \<and> retries initial_state = 0 \<and> delay initial_state = 1000
   \<and> hard_failure (reset_then_ok (calls (trace initial_state)))
   \<and> loop_body reset_then_ok (api_request ''iVBORw0KGgo='' ''image/png'') initial_state =
       Continue \<lparr>response = None, delay = 2000, retries = 1,
                 trace = [Fetch (api_request ''iVBORw0KGgo='' ''image/png''), Wait 1000]\<rparr>
   \<and> retries (state_of (loop_body reset_then_ok
         (api_request ''iVBORw0KGgo='' ''image/png'') initial_state)) \<le> 5"
proof -
  let ?req = "api_request ''iVBORw0KGgo='' ''image/png''"
  have head: "loop_head reset_then_ok ?req initial_state"
    by (rule loop_head.start)
  have failure: "hard_failure (reset_then_ok (calls (trace initial_state)))"
    by (simp add: reset_then_ok_def)
  have body: "loop_body reset_then_ok ?req initial_state =
       Continue \<lparr>response = None, delay = 2000, retries = 1, trace = [Fetch ?req, Wait 1000]\<rparr>"
    by (simp add: loop_body_def catch_block_def Let_def reset_then_ok_def initial_state_def
        maxRetries_def)
  from retry_state_invariant [OF head] head failure body
  show ?thesis by simp
qed

subsection \<open>Rejected calls and responses that are not ok\<close>

lemma retry_loop_same_class:
  assumes "\<forall>i. same_class (ep1 i) (ep2 i)"
    and "same_progress s1 s2"
    and "retries s1 < maxRetries \<or> response s1 = response s2"
  shows "same_exit (retry_loop ep1 req s1) (retry_loop ep2 req s2)"
  using assms
proof (induction ep1 req s1 arbitrary: s2 rule: retry_loop.induct)
  case (1 ep1 req s1)
  from "1.prems"(2) have eq: "delay s1 = delay s2" "retries s1 = retries s2" "trace s1 = trace s2"
    by (simp_all add: same_progress_def)
  show ?case
  proof (cases "retries s1 < maxRetries")
    case False
    with "1.prems"(3) eq have "s1 = s2" by simp
    with False show ?thesis
      by (simp add: retry_loop.simps [of _ req s2])
  next
    case True
    from "1.prems"(1) have cls: "same_class (ep1 (calls (trace s1))) (ep2 (calls (trace s1)))"
      by simp
    have unfold1: "retry_loop ep1 req s1 =
        (case loop_body ep1 req s1 of Continue s' \<Rightarrow> retry_loop ep1 req s'
         | Break s' \<Rightarrow> Exited s' | Throw e s' \<Rightarrow> Threw e s')"
      using True by (simp add: retry_loop.simps [of ep1 req s1])
    have unfold2: "retry_loop ep2 req s2 =
        (case loop_body ep2 req s2 of Continue s' \<Rightarrow> retry_loop ep2 req s'
         | Break s' \<Rightarrow> Exited s' | Throw e s' \<Rightarrow> Threw e s')"
      using True eq by (simp add: retry_loop.simps [of ep2 req s2])
    have step: "(\<exists>a b. loop_body ep1 req s1 = Continue a \<and> loop_body ep2 req s2 = Continue b
                  \<and> same_progress a b \<and> (retries a < maxRetries \<or> response a = response b))
              \<or> (\<exists>a. loop_body ep1 req s1 = Break a \<and> loop_body ep2 req s2 = Break a)
              \<or> (\<exists>e1 e2 a b. loop_body ep1 req s1 = Throw e1 a \<and> loop_body ep2 req s2 = Throw e2 b
                  \<and> same_progress a b)"
      using cls eq True
      by (cases "ep1 (calls (trace s1))"; cases "ep2 (calls (trace s1))")
         (auto simp: same_class_def loop_body_def catch_block_def Let_def same_progress_def)
    then consider
      (goes_on) a b where "loop_body ep1 req s1 = Continue a" "loop_body ep2 req s2 = Continue b"
        "same_progress a b" "retries a < maxRetries \<or> response a = response b"
      | (breaks) a where "loop_body ep1 req s1 = Break a" "loop_body ep2 req s2 = Break a"
      | (throws) e1 e2 a b where "loop_body ep1 req s1 = Throw e1 a"
        "loop_body ep2 req s2 = Throw e2 b" "same_progress a b"
      by blast
    then show ?thesis
    proof cases
      case goes_on
      from "1.IH" [OF True goes_on(1) "1.prems"(1) goes_on(3,4)] goes_on(1,2) unfold1 unfold2
      show ?thesis by simp
    next
      case breaks
      with unfold1 unfold2 show ?thesis by simp
    next
      case throws
      with unfold1 unfold2 show ?thesis by simp
    qed
  qed
qed

lemma infer_same_class:
  assumes "\<forall>i. same_class (ep1 i) (ep2 i)"
  shows "snd (infer ep1 base64Data mimeType) = snd (infer ep2 base64Data mimeType)
         \<and> (fst (infer ep1 base64Data mimeType) = fst (infer ep2 base64Data mimeType)
            \<or> is_Failed (fst (infer ep1 base64Data mimeType))
              \<and> is_Failed (fst (infer ep2 base64Data mimeType)))"
proof -
  let ?req = "api_request base64Data mimeType"
  have "same_exit (retry_loop ep1 ?req initial_state) (retry_loop ep2 ?req initial_state)"
    using assms by (intro retry_loop_same_class) (simp_all add: same_progress_def)
  then show ?thesis
    by (cases "retry_loop ep1 ?req initial_state"; cases "retry_loop ep2 ?req initial_state")
       (simp_all add: infer_def same_progress_def)
qed

lemma generateAltText_same_class:
  assumes "snd (infer ep1 base64Data mimeType) = snd (infer ep2 base64Data mimeType)"
    and "fst (infer ep1 base64Data mimeType) = fst (infer ep2 base64Data mimeType)
            \<or> is_Failed (fst (infer ep1 base64Data mimeType))
              \<and> is_Failed (fst (infer ep2 base64Data mimeType))"
  shows "fst (generateAltText ep1 base64Data mimeType ui) =
         fst (generateAltText ep2 base64Data mimeType ui)"
  using assms
  by (cases "infer ep1 base64Data mimeType"; cases "infer ep2 base64Data mimeType";
      cases "fst (infer ep1 base64Data mimeType)"; cases "fst (infer ep2 base64Data mimeType)")
     (auto simp: generateAltText_def)

lemma five_rejections:
  "infer (\<lambda>i. if i < 5 then Rejected [] else ep i) base64Data mimeType =
     (Failed (FetchRejected []),
      [Fetch (api_request base64Data mimeType), Wait 1000,
       Fetch (api_request base64Data mimeType), Wait 2000,
       Fetch (api_request base64Data mimeType), Wait 4000,
       Fetch (api_request base64Data mimeType), Wait 8000,
       Fetch (api_request base64Data mimeType)])"
  by (simp add: infer_def retry_loop.simps loop_body_def catch_block_def Let_def
      initial_state_def maxRetries_def)

text \<open>
  Claim C4. A response that is neither ok nor a 429 is handled like a rejected call. Two
  endpoints whose outcomes differ only in which of these two failures occurs lead to the
  same calls and the same waits, to the same outcome or to an error in both runs, and to
  the same state of the component. The two failures draw on one budget: when each of the
  first five calls fails in one of the two ways, in any mix, the run makes exactly five
  calls, waits 1000, 2000, 4000 and 8000 milliseconds between them, and ends with an error.
\<close>

theorem hard_failures_one_budget:
  "((\<forall>i. same_class (ep1 i) (ep2 i)) \<longrightarrow>
      snd (infer ep1 base64Data mimeType) = snd (infer ep2 base64Data mimeType)
      \<and> (fst (infer ep1 base64Data mimeType) = fst (infer ep2 base64Data mimeType)
         \<or> is_Failed (fst (infer ep1 base64Data mimeType))
           \<and> is_Failed (fst (infer ep2 base64Data mimeType)))
      \<and> fst (generateAltText ep1 base64Data mimeType ui) =
          fst (generateAltText ep2 base64Data mimeType ui))
   \<and> ((\<forall>i<5. hard_failure (ep1 i)) \<longrightarrow>
      calls (snd (infer ep1 base64Data mimeType)) = 5
      \<and> waits (snd (infer ep1 base64Data mimeType)) = [1000, 2000, 4000, 8000]
      \<and> is_Failed (fst (infer ep1 base64Data mimeType)))"
proof (intro conjI impI)
  assume same: "\<forall>i. same_class (ep1 i) (ep2 i)"
  note run = infer_same_class [OF same, of base64Data mimeType]
  from run show "snd (infer ep1 base64Data mimeType) = snd (infer ep2 base64Data mimeType)"
    by simp
  from run show "fst (infer ep1 base64Data mimeType) = fst (infer ep2 base64Data mimeType)
         \<or> is_Failed (fst (infer ep1 base64Data mimeType))
           \<and> is_Failed (fst (infer ep2 base64Data mimeType))"
    by simp
  from run show "fst (generateAltText ep1 base64Data mimeType ui) =
          fst (generateAltText ep2 base64Data mimeType ui)"
    by (intro generateAltText_same_class) simp_all
next
  assume failures: "\<forall>i<5. hard_failure (ep1 i)"
  let ?ep = "\<lambda>i. if i < 5 then Rejected [] else ep1 i"
  have "\<forall>i. same_class (ep1 i) (?ep i)"
    using failures by (simp add: same_class_def)
  from infer_same_class [OF this, of base64Data mimeType]
  have run: "snd (infer ep1 base64Data mimeType) = snd (infer ?ep base64Data mimeType)"
    and out: "fst (infer ep1 base64Data mimeType) = fst (infer ?ep base64Data mimeType)
         \<or> is_Failed (fst (infer ep1 base64Data mimeType))"
    by blast+
  from run show "calls (snd (infer ep1 base64Data mimeType)) = 5"
    by (simp add: five_rejections)
  from run show "waits (snd (infer ep1 base64Data mimeType)) = [1000, 2000, 4000, 8000]"
    by (simp add: five_rejections)
  from out show "is_Failed (fst (infer ep1 base64Data mimeType))"
    by (auto simp: five_rejections)
qed

theorem hard_failures_one_budget_witness:
  "reset_then_ok 0 = Rejected ''Failed to fetch''
   \<and> error_then_ok 0 = Resolved server_error
   \<and> same_class (reset_then_ok 0) (error_then_ok 0)
   \<and> snd (infer reset_then_ok ''iVBORw0KGgo='' ''image/png'') =
       snd (infer error_then_ok ''iVBORw0KGgo='' ''image/png'')
   \<and> fst (generateAltText reset_then_ok ''iVBORw0KGgo='' ''image/png'' initial_ui) =
       fst (generateAltText error_then_ok ''iVBORw0KGgo='' ''image/png'' initial_ui)
   \<and> hard_failure (failing 0) \<and> hard_failure (failing 1) \<and> hard_failure (failing 2)
   \<and> hard_failure (failing 3) \<and> hard_failure (failing 4)
   \<and> calls (snd (infer failing ''iVBORw0KGgo='' ''image/png'')) = 5
   \<and> waits (snd (infer failing ''iVBORw0KGgo='' ''image/png'')) = [1000, 2000, 4000, 8000]
   \<and> is_Failed (fst (infer failing ''iVBORw0KGgo='' ''image/png''))"
proof -
  have same: "\<forall>i. same_class (reset_then_ok i) (error_then_ok i)"
    by (simp add: same_class_def reset_then_ok_def error_then_ok_def server_error_def)
  have failures: "\<forall>i<5. hard_failure (failing i)"
    by (simp add: failing_def server_error_def)
  have given: "reset_then_ok 0 = Rejected ''Failed to fetch''"
    "error_then_ok 0 = Resolved server_error"
    by (simp_all add: reset_then_ok_def error_then_ok_def)
  from same have swapped: "same_class (reset_then_ok 0) (error_then_ok 0)" ..
  from hard_failures_one_budget
         [of reset_then_ok error_then_ok "''iVBORw0KGgo=''" "''image/png''" initial_ui] same
  have first: "snd (infer reset_then_ok ''iVBORw0KGgo='' ''image/png'') =
       snd (infer error_then_ok ''iVBORw0KGgo='' ''image/png'')"
    "fst (generateAltText reset_then_ok ''iVBORw0KGgo='' ''image/png'' initial_ui) =
       fst (generateAltText error_then_ok ''iVBORw0KGgo='' ''image/png'' initial_ui)"
    by simp_all
  from hard_failures_one_budget
         [of failing failing "''iVBORw0KGgo=''" "''image/png''" initial_ui] failures
  have second: "calls (snd (infer failing ''iVBORw0KGgo='' ''image/png'')) = 5"
    "waits (snd (infer failing ''iVBORw0KGgo='' ''image/png'')) = [1000, 2000, 4000, 8000]"
    "is_Failed (fst (infer failing ''iVBORw0KGgo='' ''image/png''))"
    by simp_all
  from failures given swapped first second show ?thesis
    by simp
qed

subsection \<open>The request of the first call\<close>

lemma loop_body_trace:
  "\<exists>rest. trace (state_of (loop_body ep req s)) = trace s @ Fetch req # rest"
  by (cases "ep (calls (trace s))")
     (simp_all add: loop_body_def catch_block_def Let_def)

lemma retry_loop_trace:
  "\<exists>rest. trace (exit_state (retry_loop ep req s)) = trace s @ rest"
proof (induction ep req s rule: retry_loop.induct)
  case (1 ep req s)
  show ?case
  proof (cases "retries s < maxRetries")
    case False
    then show ?thesis by (simp add: retry_loop.simps [of ep req s])
  next
    case True
    from loop_body_trace [of ep req s] obtain rest
      where rest: "trace (state_of (loop_body ep req s)) = trace s @ Fetch req # rest" ..
    show ?thesis
    proof (cases "loop_body ep req s")
      case (Continue s')
      from "1.IH" [OF True Continue] obtain rest'
        where "trace (exit_state (retry_loop ep req s')) = trace s' @ rest'" ..
      with rest Continue True show ?thesis
        by (simp add: retry_loop.simps [of ep req s])
    next
      case (Break s')
      with rest True show ?thesis by (simp add: retry_loop.simps [of ep req s])
    next
      case (Throw e s')
      with rest True show ?thesis by (simp add: retry_loop.simps [of ep req s])
    qed
  qed
qed

lemma retry_loop_first_call:
  assumes "retries s < maxRetries"
  shows "\<exists>rest. trace (exit_state (retry_loop ep req s)) = trace s @ Fetch req # rest"
proof -
  from loop_body_trace [of ep req s] obtain rest
    where rest: "trace (state_of (loop_body ep req s)) = trace s @ Fetch req # rest" ..
  show ?thesis
  proof (cases "loop_body ep req s")
    case (Continue s')
    from retry_loop_trace [of ep req s'] obtain rest'
      where "trace (exit_state (retry_loop ep req s')) = trace s' @ rest'" ..
    with rest Continue assms show ?thesis
      by (simp add: retry_loop.simps [of ep req s])
  next
    case (Break s')
    with rest assms show ?thesis by (simp add: retry_loop.simps [of ep req s])
  next
    case (Throw e s')
    with rest assms show ?thesis by (simp add: retry_loop.simps [of ep req s])
  qed
qed

text \<open>
  Claim C8. For every payload, the empty one included, and every endpoint, the first
  thing a run does is a call of \<^verbatim>\<open>fetch\<close>, and the body of its request holds the
  base64 data and the MIME type as they were given, next to the prompt.
\<close>

theorem payload_passed_through:
  "(\<exists>rest. snd (infer ep base64Data mimeType) =
      Fetch \<lparr>url = apiUrl, http_method = ''POST'',
             headers = [(''Content-Type'', ''application/json'')],
             body = JObj [(''contents'',
               JArr [JObj [(''role'', JStr ''user''),
                           (''parts'',
                             JArr [JObj [(''text'', JStr prompt)],
                                   JObj [(''inlineData'',
                                     JObj [(''mimeType'', JStr mimeType),
                                           (''data'', JStr base64Data)])]])]])]\<rparr> # rest)
   \<and> (\<exists>rest. snd (infer ep [] mimeType) =
      Fetch \<lparr>url = apiUrl, http_method = ''POST'',
             headers = [(''Content-Type'', ''application/json'')],
             body = JObj [(''contents'',
               JArr [JObj [(''role'', JStr ''user''),
                           (''parts'',
                             JArr [JObj [(''text'', JStr prompt)],
                                   JObj [(''inlineData'',
                                     JObj [(''mimeType'', JStr mimeType),
                                           (''data'', JStr [])])]])]])]\<rparr> # rest)
   \<and> 1 \<le> calls (snd (infer ep base64Data mimeType))"
proof -
  have first: "\<exists>rest. snd (infer ep b mimeType) = Fetch (api_request b mimeType) # rest" for b
    using retry_loop_first_call [of initial_state ep "api_request b mimeType"]
    by (simp add: infer_trace maxRetries_def)
  then obtain rest
    where "snd (infer ep base64Data mimeType) = Fetch (api_request base64Data mimeType) # rest" ..
  then have "1 \<le> calls (snd (infer ep base64Data mimeType))" by simp
  with first [of base64Data] first [of "[]"] show ?thesis
    by (simp add: api_request_def payload_def)
qed

subsection \<open>Running twice\<close>

text \<open>
  Claim C9. Against an endpoint that answers with the same sequence of outcomes, a second
  run with the same payload, started in the state the first run left, makes the same calls
  and waits and leaves the same state again. What a run does, the message it leaves and
  the loading flag do not depend on the state it starts in; the outcome of
  \<^verbatim>\<open>infer\<close> is a function of the endpoint and the payload alone.
\<close>

theorem generateAltText_idempotent:
  "generateAltText ep base64Data mimeType (fst (generateAltText ep base64Data mimeType ui)) =
     generateAltText ep base64Data mimeType ui
   \<and> snd (generateAltText ep base64Data mimeType ui') =
       snd (generateAltText ep base64Data mimeType ui)
   \<and> message (fst (generateAltText ep base64Data mimeType ui')) =
       message (fst (generateAltText ep base64Data mimeType ui))
   \<and> isLoading (fst (generateAltText ep base64Data mimeType ui)) = False"
  by (cases "infer ep base64Data mimeType"; cases "fst (infer ep base64Data mimeType)")
     (simp_all add: generateAltText_def)

end
